theory Spec2Isabelle
  imports Complex_Main "HOL-Library.Multiset"
begin

section \<open>JavaScript values used by the helpers of \<open>util/general\<close>\<close>

text \<open>
  The helpers are dynamically typed. A variable of \<open>militaryToAMPM\<close> holds
  \<open>undefined\<close>, a string or a number, and the property of a marker that a comparator
  reads holds any of these too. Strings are lists of code units (those below 256),
  numbers are exact rationals, with \<open>NaN\<close> apart.
\<close>

datatype jsval = Undefined | Str string | Num rat | NaN

datatype js_error = TypeError

subsection \<open>Strings to numbers\<close>

definition is_digit :: "char \<Rightarrow> bool" where
  "is_digit c = (48 \<le> (of_char c :: nat) \<and> (of_char c :: nat) \<le> 57)"

text \<open>White space and line terminators of the language among the code units below 256.\<close>

definition is_space :: "char \<Rightarrow> bool" where
  "is_space c = ((of_char c :: nat) \<in> {9, 10, 11, 12, 13, 32, 160})"

definition trim :: "string \<Rightarrow> string" where
  "trim s = rev (dropWhile is_space (rev (dropWhile is_space s)))"

definition digits_val :: "string \<Rightarrow> nat" where
  "digits_val ds = foldl (\<lambda>acc c. 10 * acc + ((of_char c :: nat) - 48)) 0 ds"

text \<open>An unsigned decimal literal: digits, with an optional fraction part.\<close>

definition str_decimal :: "string \<Rightarrow> rat option" where
  "str_decimal u =
     (let ip = takeWhile is_digit u; rest = dropWhile is_digit u in
      case rest of
        [] \<Rightarrow> if ip = [] then None else Some (of_nat (digits_val ip))
      | c # fp \<Rightarrow>
          if c = CHR ''.'' \<and> list_all is_digit fp \<and> (ip \<noteq> [] \<or> fp \<noteq> [])
          then Some (of_nat (digits_val ip) + of_nat (digits_val fp) / 10 ^ length fp)
          else None)"

text \<open>
  The conversion of a string to a number that \<open><\<close>, \<open>>\<close> and \<open>-=\<close> apply to a
  string operand; \<open>None\<close> is \<open>NaN\<close>. The string is trimmed, the empty string is 0, a
  sign may lead a decimal literal. The literal forms left out (an exponent part, the
  prefixes \<open>0x\<close>, \<open>0o\<close>, \<open>0b\<close>, \<open>Infinity\<close>) take at least three code units;
  \<open>militaryToAMPM\<close> converts strings of one or two code units only, and there the
  conversion is the language's. On a longer string written in one of the forms left out
  the result here is \<open>NaN\<close> where the language gives a number; nothing proved below
  about the comparators depends on the number of a string.
\<close>

definition to_number :: "string \<Rightarrow> rat option" where
  "to_number s =
     (case trim s of
        [] \<Rightarrow> Some 0
      | c # u \<Rightarrow>
          if c = CHR ''+'' then str_decimal u
          else if c = CHR ''-'' then map_option uminus (str_decimal u)
          else str_decimal (c # u))"

fun js_to_number :: "jsval \<Rightarrow> rat option" where
  "js_to_number Undefined = None"
| "js_to_number (Str s) = to_number s"
| "js_to_number (Num r) = Some r"
| "js_to_number NaN = None"

subsection \<open>Relational comparison, subtraction\<close>

fun str_lt :: "string \<Rightarrow> string \<Rightarrow> bool" where
  "str_lt [] [] = False"
| "str_lt [] (y # ys) = True"
| "str_lt (x # xs) [] = False"
| "str_lt (x # xs) (y # ys) =
     ((of_char x :: nat) < of_char y \<or> (x = y \<and> str_lt xs ys))"

text \<open>
  \<open>a < b\<close>: two strings compare by code units, any other pair through their numbers,
  and a comparison with \<open>NaN\<close> is false. \<open>a > b\<close> is \<open>js_lt b a\<close>.
\<close>

fun js_lt :: "jsval \<Rightarrow> jsval \<Rightarrow> bool" where
  "js_lt (Str s) (Str t) = str_lt s t"
| "js_lt a b =
     (case (js_to_number a, js_to_number b) of
        (Some x, Some y) \<Rightarrow> x < y
      | _ \<Rightarrow> False)"

definition js_gt :: "jsval \<Rightarrow> jsval \<Rightarrow> bool" where
  "js_gt a b = js_lt b a"

definition js_sub :: "jsval \<Rightarrow> jsval \<Rightarrow> jsval" where
  "js_sub a b =
     (case (js_to_number a, js_to_number b) of
        (Some x, Some y) \<Rightarrow> Num (x - y)
      | _ \<Rightarrow> NaN)"

subsection \<open>Numbers to strings\<close>

definition digit_char :: "nat \<Rightarrow> char" where
  "digit_char d = char_of (48 + d)"

fun show_nat :: "nat \<Rightarrow> string" where
  "show_nat n = (if n < 10 then [digit_char n] else show_nat (n div 10) @ [digit_char (n mod 10)])"

declare show_nat.simps [simp del]

fun frac_digits :: "nat \<Rightarrow> rat \<Rightarrow> string" where
  "frac_digits 0 f = []"
| "frac_digits (Suc k) f =
     (if f = 0 then []
      else digit_char (nat \<lfloor>f * 10\<rfloor>) # frac_digits k (f * 10 - of_int \<lfloor>f * 10\<rfloor>))"

text \<open>
  The decimal form of a number: exact for an integer, as the language prints it below
  \<open>10^21\<close>; a fraction is expanded to at most 17 digits. The language prints the
  shortest digits that read back as the same number and switches to exponent form from
  \<open>10^21\<close> on and below \<open>10^-6\<close>; this function does neither. Only integers from 1
  to 87 reach it from \<open>militaryToAMPM\<close> (lemma \<open>hour_above_12\<close>), and what is proved
  about \<open>getDirectionsURL\<close> holds for any form of the coordinates.
\<close>

definition number_to_string :: "rat \<Rightarrow> string" where
  "number_to_string r =
     (let a = \<bar>r\<bar>; ip = \<lfloor>a\<rfloor>; fp = a - of_int ip in
      (if r < 0 then ''-'' else '''') @ show_nat (nat ip) @
      (if fp = 0 then '''' else ''.'' @ frac_digits 17 fp))"

fun js_to_string :: "jsval \<Rightarrow> string" where
  "js_to_string Undefined = ''undefined''"
| "js_to_string (Str s) = s"
| "js_to_string (Num r) = number_to_string r"
| "js_to_string NaN = ''NaN''"

section \<open>The time formatter: \<open>militaryToAMPM\<close>\<close>

text \<open>\<open>s.substring(i, j)\<close> for \<open>i \<le> j\<close>.\<close>

definition substring :: "nat \<Rightarrow> nat \<Rightarrow> string \<Rightarrow> string" where
  "substring i j s = take (j - i) (drop i s)"

text \<open>\<open>s.replace(':', '')\<close>: the first colon goes, the others stay.\<close>

fun replace_colon :: "string \<Rightarrow> string" where
  "replace_colon [] = []"
| "replace_colon (c # cs) = (if c = CHR '':'' then cs else c # replace_colon cs)"

text \<open>\<open>s.replace(/^0/, '')\<close>: one leading zero goes.\<close>

fun strip_zero :: "string \<Rightarrow> string" where
  "strip_zero [] = []"
| "strip_zero (c # cs) = (if c = CHR ''0'' then cs else c # cs)"

definition normalize :: "string \<Rightarrow> string" where
  "normalize time = strip_zero (replace_colon (substring 0 5 time))"

text \<open>
  The hour and minute parts after the split on the length: both stay \<open>undefined\<close> when
  the length is neither 3 nor 4 (the source has no \<open>else\<close> there). The minute part is a
  string or \<open>undefined\<close> (\<open>None\<close>).
\<close>

definition split_hhmm :: "string \<Rightarrow> jsval \<times> string option" where
  "split_hhmm militaryTime =
     (if length militaryTime = 3
      then (Str (substring 0 1 militaryTime), Some (substring 1 3 militaryTime))
      else if length militaryTime = 4
      then (Str (substring 0 2 militaryTime), Some (substring 2 4 militaryTime))
      else (Undefined, None))"

text \<open>
  The function, statement by statement. A non-empty string is truthy. Reading
  \<open>.length\<close> of \<open>undefined\<close> throws a \<open>TypeError\<close>.
\<close>

definition militaryToAMPM :: "string \<Rightarrow> js_error + string" where
  "militaryToAMPM time =
     (if time \<noteq> [] then
        (let militaryTime = normalize time;
             (hh0, mm0) = split_hhmm militaryTime;
             militaryTimeAMPM = (if js_lt hh0 (Num 12) then ''am'' else ''pm'');
             hh1 = (if js_gt hh0 (Num 12) then js_sub hh0 (Num 12) else hh0);
             militaryTimeHH = (if hh1 = Str ''0'' then Str ''12'' else hh1);
             militaryTimeMM = (if mm0 = Some ''00'' then Some '''' else mm0)
         in case militaryTimeMM of
              None \<Rightarrow> Inl TypeError
            | Some mm \<Rightarrow>
                if length mm > 0
                then Inr (js_to_string militaryTimeHH @ '':'' @ mm @ militaryTimeAMPM)
                else Inr (js_to_string militaryTimeHH @ militaryTimeAMPM))
      else Inr '''')"

text \<open>A number below 100 written with two digits, as in a well-formed \<open>HHMM\<close> time.\<close>

definition two_digits :: "nat \<Rightarrow> string" where
  "two_digits n = [digit_char (n div 10), digit_char (n mod 10)]"

section \<open>Comparators on markers: \<open>dynamicSort\<close>, \<open>sortNearbyMarkers\<close>\<close>

text \<open>
  An object is the list of its own properties, in insertion order; reading a property
  the object does not have gives \<open>undefined\<close>.
\<close>

type_synonym js_object = "(string \<times> jsval) list"

definition get_prop :: "js_object \<Rightarrow> string \<Rightarrow> jsval" where
  "get_prop a p = (case map_of a p of None \<Rightarrow> Undefined | Some v \<Rightarrow> v)"

text \<open>\<open>dynamicSort(property)\<close> returns the comparator; it is curried here.\<close>

definition dynamicSort :: "string \<Rightarrow> js_object \<Rightarrow> js_object \<Rightarrow> int" where
  "dynamicSort property a b =
     (if js_lt (get_prop a property) (get_prop b property) then - 1
      else if js_gt (get_prop a property) (get_prop b property) then 1
      else 0)"

definition sortNearbyMarkers :: "js_object \<Rightarrow> js_object \<Rightarrow> int" where
  "sortNearbyMarkers a b =
     (if js_lt (get_prop a ''distance'') (get_prop b ''distance'') then - 1
      else if js_gt (get_prop a ''distance'') (get_prop b ''distance'') then 1
      else 0)"

subsection \<open>Ranking by distance\<close>

fun insert_by :: "('a \<Rightarrow> 'a \<Rightarrow> int) \<Rightarrow> 'a \<Rightarrow> 'a list \<Rightarrow> 'a list" where
  "insert_by cmp x [] = [x]"
| "insert_by cmp x (y # ys) =
     (if cmp x y \<le> 0 then x # y # ys else y # insert_by cmp x ys)"

text \<open>
  Modelled from the spec: the ranking operation \<open>DistanceRanker.rank\<close>, the call that
  sorts a list of located entities with the distance comparator, is in none of the
  source files; only the comparator is. The spec (4.2) describes it as a stable sort,
  ascending by distance. It is modelled as the insertion sort that the comparator
  \<open>sortNearbyMarkers\<close> of the source drives: an element goes before the first element
  it does not compare greater than.
\<close>

definition rank :: "js_object list \<Rightarrow> js_object list" where
  "rank entities = foldr (insert_by sortNearbyMarkers) entities []"

text \<open>The number in the distance field (0 when the field holds no number).\<close>

definition distance_of :: "js_object \<Rightarrow> rat" where
  "distance_of a = (case get_prop a ''distance'' of Num d \<Rightarrow> d | _ \<Rightarrow> 0)"

section \<open>The shuttle stop view: \<open>startShuttleWatch\<close>, \<open>tryUpdateStop\<close>\<close>

definition stopUpdateInterval :: nat where
  "stopUpdateInterval = 6000"

text \<open>
  The mounted component. Time is in milliseconds. \<open>stopID\<close> is \<open>this.props.stopID\<close>,
  read anew at every call of \<open>tryUpdateStop\<close>. \<open>intervals\<close> holds the next due time of
  every repeating timer that \<open>setInterval\<close> has registered; each of them calls
  \<open>tryUpdateStop\<close> every \<open>stopUpdateInterval\<close>. \<open>requests\<close> is the log of the calls of
  \<open>this.props.updateArrivals\<close>, each with its time and its argument. What a call does
  beyond being made (the action \<open>updateArrivals\<close> of \<open>actions/shuttle\<close> that the
  property dispatches) is not in the given sources and is not modelled: the log records
  that the call was made, nothing about a fetch.
\<close>

record 'id shuttle_stop =
  stopID :: 'id
  clock :: nat
  intervals :: "nat list"
  requests :: "(nat \<times> 'id) list"

definition tryUpdateStop :: "'id shuttle_stop \<Rightarrow> 'id shuttle_stop" where
  "tryUpdateStop s = s\<lparr>requests := requests s @ [(clock s, stopID s)]\<rparr>"

definition startShuttleWatch :: "'id shuttle_stop \<Rightarrow> 'id shuttle_stop" where
  "startShuttleWatch s = s\<lparr>intervals := intervals s @ [clock s + stopUpdateInterval]\<rparr>"

text \<open>The analytics log line of \<open>componentDidMount\<close> changes nothing here.\<close>

definition componentDidMount :: "'id shuttle_stop \<Rightarrow> 'id shuttle_stop" where
  "componentDidMount s = startShuttleWatch s"

text \<open>A component for a stop created at a time, before it mounts.\<close>

definition created :: "'id \<Rightarrow> nat \<Rightarrow> 'id shuttle_stop" where
  "created sid t = \<lparr>stopID = sid, clock = t, intervals = [], requests = []\<rparr>"

text \<open>
  The environment. \<open>tick\<close>: time passes until the earliest repeating timer is due, its
  callback runs, and the timer is due again one interval later.
\<close>

definition tick :: "'id shuttle_stop \<Rightarrow> 'id shuttle_stop" where
  "tick s =
     (case intervals s of
        [] \<Rightarrow> s
      | d # ds \<Rightarrow>
          (let due = fold min ds d in
           tryUpdateStop
             (s\<lparr>clock := max (clock s) due,
                intervals := remove1 due (d # ds) @ [due + stopUpdateInterval]\<rparr>)))"

text \<open>
  What can happen to a mounted component: a timer tick; the arrival of a response to
  an earlier call, which goes to the store and for which the component has no handler,
  no flag and no counter, so that nothing of the component above changes; and new
  properties from the parent, with another stop.
\<close>

datatype 'id event = Tick | Response | Props 'id

fun step :: "'id event \<Rightarrow> 'id shuttle_stop \<Rightarrow> 'id shuttle_stop" where
  "step Tick s = tick s"
| "step Response s = s"
| "step (Props sid) s = s\<lparr>stopID := sid\<rparr>"

definition run :: "'id event list \<Rightarrow> 'id shuttle_stop \<Rightarrow> 'id shuttle_stop" where
  "run es s = fold step es s"

section \<open>The reload indicator: \<open>startReloadAnimation\<close>, \<open>stopReloadAnimation\<close>\<close>

text \<open>
  An animated value of the platform and the timing animation driving it, if one is
  running. \<open>Animated.timing(anim, config).start()\<close> replaces whatever animation drives
  the value; the new one starts at the value's current number; with a duration of 0
  it sets the value to the target at once and ends. Durations and elapsed times are
  whole milliseconds.
\<close>

record timing =
  fromValue :: rat
  toValue :: rat
  duration :: nat
  easing :: "rat \<Rightarrow> rat"
  elapsed :: nat

record animated =
  current :: rat
  driver :: "timing option"

definition timing_start :: "animated \<Rightarrow> rat \<Rightarrow> nat \<Rightarrow> (rat \<Rightarrow> rat) \<Rightarrow> animated" where
  "timing_start anim toVal dur ease =
     (if dur = 0 then \<lparr>current = toVal, driver = None\<rparr>
      else \<lparr>current = current anim,
            driver = Some \<lparr>fromValue = current anim, toValue = toVal, duration = dur,
                           easing = ease, elapsed = 0\<rparr>\<rparr>)"

text \<open>The value after a further \<open>dt\<close> milliseconds.\<close>

definition advance :: "nat \<Rightarrow> animated \<Rightarrow> animated" where
  "advance dt anim =
     (case driver anim of
        None \<Rightarrow> anim
      | Some a \<Rightarrow>
          (let e = elapsed a + dt in
           if duration a \<le> e
           then \<lparr>current = fromValue a + easing a 1 * (toValue a - fromValue a), driver = None\<rparr>
           else \<lparr>current = fromValue a +
                              easing a (of_nat e / of_nat (duration a)) * (toValue a - fromValue a),
                 driver = Some (a\<lparr>elapsed := e\<rparr>)\<rparr>))"

definition linear :: "rat \<Rightarrow> rat" where
  "linear t = t"

definition startReloadAnimation2 :: "animated \<Rightarrow> rat \<Rightarrow> nat \<Rightarrow> animated" where
  "startReloadAnimation2 anim toVal dur = timing_start anim toVal dur linear"

definition startReloadAnimation :: "animated \<Rightarrow> animated" where
  "startReloadAnimation anim = timing_start anim 100 60000 linear"

text \<open>
  \<open>stopReloadAnimation\<close> names no easing, so the platform's default curve applies; it
  is the parameter \<open>default_easing\<close>.
\<close>

definition stopReloadAnimation :: "(rat \<Rightarrow> rat) \<Rightarrow> animated \<Rightarrow> animated" where
  "stopReloadAnimation default_easing anim = timing_start anim 0 0 default_easing"

section \<open>The directions handoff: \<open>getDirectionsURL\<close>\<close>

text \<open>\<open>Platform.OS\<close> is the parameter \<open>os\<close>.\<close>

definition platformIOS :: "string \<Rightarrow> bool" where
  "platformIOS os = (os = ''ios'')"

definition getDirectionsURL :: "string \<Rightarrow> jsval \<Rightarrow> jsval \<Rightarrow> jsval \<Rightarrow> string" where
  "getDirectionsURL os method stopLat stopLon =
     (if platformIOS os then
        (if method = Str ''walk''
         then ''http://maps.apple.com/?saddr=Current%20Location&daddr='' @ js_to_string stopLat @
              '','' @ js_to_string stopLon @ ''&dirflg=w''
         else ''http://maps.apple.com/?saddr=Current%20Location&daddr='' @ js_to_string stopLat @
              '','' @ js_to_string stopLon @ ''&dirflg=d'')
      else
        (if method = Str ''walk''
         then ''https://maps.google.com/maps?saddr=Current+Location&daddr='' @
              js_to_string stopLat @ '','' @ js_to_string stopLon @ ''&dirflg=w''
         else ''https://maps.google.com/maps?saddr=Current+Location&daddr='' @
              js_to_string stopLat @ '','' @ js_to_string stopLon @ ''&dirflg=d''))"

section \<open>The fetcher: \<open>DiningService.FetchDining\<close>\<close>

datatype json =
  JNull | JBool bool | JNumber rat | JString string | JArray "json list"
  | JObject "(string \<times> json) list"

text \<open>
  What the request comes back with: a transport failure, or a response whose body
  parses as JSON or does not (\<open>None\<close>).
\<close>

datatype transport = NetworkFailure | Body "json option"

text \<open>
  Why the promise rejects: the request failed, the body is no JSON, a property of
  \<open>null\<close> was read, or the function threw the value of the error-message field.
\<close>

datatype rejection = NetworkError | SyntaxError | NullTypeError | Thrown "json option"

text \<open>
  \<open>data.p\<close> on parsed JSON, \<open>None\<close> for \<open>undefined\<close>. Of a key written twice the
  parser keeps the last value. Arrays, strings, numbers and booleans have neither of the
  two properties read here.
\<close>

fun json_prop :: "json \<Rightarrow> string \<Rightarrow> rejection + json option" where
  "json_prop JNull p = Inl NullTypeError"
| "json_prop (JObject kvs) p = Inr (map_of (rev kvs) p)"
| "json_prop _ p = Inr None"

fun truthy :: "json option \<Rightarrow> bool" where
  "truthy None = False"
| "truthy (Some JNull) = False"
| "truthy (Some (JBool b)) = b"
| "truthy (Some (JNumber r)) = (r \<noteq> 0)"
| "truthy (Some (JString s)) = (s \<noteq> [])"
| "truthy (Some (JArray xs)) = True"
| "truthy (Some (JObject kvs)) = True"

definition FetchDining :: "transport \<Rightarrow> rejection + json option" where
  "FetchDining t =
     (case t of
        NetworkFailure \<Rightarrow> Inl NetworkError
      | Body None \<Rightarrow> Inl SyntaxError
      | Body (Some data) \<Rightarrow>
          (case json_prop data ''errorMessage'' of
             Inl e \<Rightarrow> Inl e
           | Inr errorMessage \<Rightarrow>
               if truthy errorMessage then Inl (Thrown errorMessage)
               else json_prop data ''GetDiningInfoResult''))"

section \<open>Properties of the time formatter\<close>

lemma split_hhmm_short: "length m < 3 \<Longrightarrow> split_hhmm m = (Undefined, None)"
  by (simp add: split_hhmm_def)

text \<open>
  Every non-empty string whose normal form (colon removed, one leading zero removed) has
  fewer than three code units makes the function throw.
\<close>

lemma militaryToAMPM_short_general:
  "time \<noteq> [] \<Longrightarrow> length (normalize time) < 3 \<Longrightarrow> militaryToAMPM time = Inl TypeError"
  by (simp add: militaryToAMPM_def split_hhmm_short)

lemma militaryToAMPM_throws_iff:
  "militaryToAMPM time = Inl TypeError \<longleftrightarrow>
   time \<noteq> [] \<and> length (normalize time) \<noteq> 3 \<and> length (normalize time) \<noteq> 4"
  by (simp add: militaryToAMPM_def split_hhmm_def Let_def)

subsection \<open>The hour as a number\<close>

text \<open>
  A string of at most two code units is a number above 12 only when it is two digits,
  so the subtraction in \<open>militaryToAMPM\<close> yields a whole number from 1 to 87.
\<close>

lemma is_digit_dot: "\<not> is_digit CHR ''.''"
  by (simp add: is_digit_def)

lemma str_decimal_Nil: "str_decimal [] = None"
  by (simp add: str_decimal_def)

lemma str_decimal_one:
  "str_decimal [a] = (if is_digit a then Some (of_nat (of_char a - 48)) else None)"
  by (auto simp: str_decimal_def digits_val_def is_digit_dot)

lemma str_decimal_two:
  "str_decimal [a, b] =
     (if is_digit a then
        (if is_digit b then Some (of_nat (10 * (of_char a - 48) + (of_char b - 48)))
         else if b = CHR ''.'' then Some (of_nat (of_char a - 48)) else None)
      else if a = CHR ''.'' \<and> is_digit b then Some (of_nat (of_char b - 48) / 10) else None)"
  by (auto simp: str_decimal_def digits_val_def is_digit_dot)

lemma length_trim: "length (trim s) \<le> length s"
proof -
  have "length (trim s) \<le> length (dropWhile is_space s)"
    unfolding trim_def using length_dropWhile_le [of is_space "rev (dropWhile is_space s)"] by simp
  also have "\<dots> \<le> length s" by (rule length_dropWhile_le)
  finally show ?thesis .
qed

lemma short_cases:
  assumes "length u \<le> 2"
  obtains "u = []" | a where "u = [a]" | a b where "u = [a, b]"
proof (cases u)
  case Nil
  then show ?thesis using that by simp
next
  case (Cons a v)
  then show ?thesis using that assms by (cases v) auto
qed

lemma to_number_short:
  assumes "length s \<le> 2" and "to_number s = Some r" and "12 < r"
  shows "\<exists>n. r = of_nat n \<and> 13 \<le> n \<and> n \<le> 99"
proof -
  have len: "length (trim s) \<le> 2"
    using assms(1) length_trim [of s] by simp
  from len show ?thesis
  proof (cases rule: short_cases)
    case 1
    with assms show ?thesis by (simp add: to_number_def)
  next
    case (2 a)
    have "\<And>c. is_digit c \<Longrightarrow> (of_char c :: nat) - 48 \<le> 9"
      unfolding is_digit_def by arith
    with 2 assms show ?thesis
      by (fastforce simp: to_number_def str_decimal_Nil str_decimal_one split: if_splits)
  next
    case (3 a b)
    have d: "\<And>c. is_digit c \<Longrightarrow> (of_char c :: nat) - 48 \<le> 9"
      unfolding is_digit_def by arith
    show ?thesis
    proof (cases "a = CHR ''+'' \<or> a = CHR ''-''")
      case True
      with 3 assms d [of b] show ?thesis
        by (auto simp: to_number_def str_decimal_one split: if_splits)
    next
      case False
      with 3 assms have sd: "str_decimal [a, b] = Some r"
        by (simp add: to_number_def)
      show ?thesis
      proof (cases "is_digit a \<and> is_digit b")
        case True
        with sd have r: "r = of_nat (10 * (of_char a - 48) + (of_char b - 48))"
          by (simp add: str_decimal_two)
        let ?n = "10 * ((of_char a :: nat) - 48) + ((of_char b :: nat) - 48)"
        from assms(3) r have "(12::rat) < of_nat ?n" by simp
        then have "12 < ?n" by (metis of_nat_less_iff of_nat_numeral)
        moreover have "?n \<le> 99" using d [of a] d [of b] True by simp
        ultimately show ?thesis using r by (intro exI [of _ ?n]) simp
      next
        case False
        with sd assms(3) d [of a] d [of b] show ?thesis
          by (auto simp: str_decimal_two split: if_splits)
      qed
    qed
  qed
qed

lemma hour_above_12:
  assumes "length s \<le> 2" and "js_gt (Str s) (Num 12)"
  shows "\<exists>n. js_sub (Str s) (Num 12) = Num (of_nat n) \<and> 1 \<le> n \<and> n \<le> 87"
proof -
  from assms(2) obtain r where r: "to_number s = Some r" "12 < r"
    by (auto simp: js_gt_def split: option.splits)
  from to_number_short [OF assms(1) r] obtain n where n: "r = of_nat n" "13 \<le> n" "n \<le> 99"
    by blast
  then have "r - 12 = of_nat (n - 12)" by (simp add: of_nat_diff)
  moreover from n have "1 \<le> n - 12 \<and> n - 12 \<le> 87" by arith
  ultimately show ?thesis using r
    by (intro exI [of _ "n - 12"]) (simp add: js_sub_def)
qed

subsection \<open>Well-formed times\<close>

lemma of_char_digit: "d < 10 \<Longrightarrow> (of_char (digit_char d) :: nat) = 48 + d"
  by (simp add: digit_char_def)

lemma is_digit_digit_char: "d < 10 \<Longrightarrow> is_digit (digit_char d)"
  by (simp add: is_digit_def of_char_digit)

lemma digit_char_eq_iff:
  assumes "d < 10" and "e < 10"
  shows "digit_char d = digit_char e \<longleftrightarrow> d = e"
proof
  assume "digit_char d = digit_char e"
  then have "(of_char (digit_char d) :: nat) = of_char (digit_char e)" by simp
  with assms show "d = e" by (simp add: of_char_digit)
qed simp

lemma digit_char_0: "digit_char 0 = CHR ''0''"
  by code_simp

lemma digit_char_not_colon: "d < 10 \<Longrightarrow> digit_char d \<noteq> CHR '':''"
proof
  assume "d < 10" and "digit_char d = CHR '':''"
  then have "(of_char (digit_char d) :: nat) = of_char CHR '':''" by simp
  with \<open>d < 10\<close> show False by (simp add: of_char_digit)
qed

lemma not_space_digit: "d < 10 \<Longrightarrow> \<not> is_space (digit_char d)"
  by (simp add: is_space_def of_char_digit)


lemma digit_char_neq: "d < 10 \<Longrightarrow> \<not> is_digit c \<Longrightarrow> digit_char d \<noteq> c"
  using is_digit_digit_char by blast

lemma not_digit_signs: "\<not> is_digit CHR ''+''" "\<not> is_digit CHR ''-''" "\<not> is_digit CHR ''.''"
  by (simp_all add: is_digit_def)

lemma trim_digits:
  "a < 10 \<Longrightarrow> trim [digit_char a] = [digit_char a]"
  "a < 10 \<Longrightarrow> b < 10 \<Longrightarrow> trim [digit_char a, digit_char b] = [digit_char a, digit_char b]"
  by (simp_all add: trim_def not_space_digit)

lemma to_number_digit:
  assumes "d < 10"
  shows "to_number [digit_char d] = Some (of_nat d)"
proof -
  have "str_decimal [digit_char d] = Some (of_nat d)"
    using assms
    by (simp add: str_decimal_def digits_val_def is_digit_digit_char of_char_digit)
  with assms show ?thesis
    by (simp add: to_number_def trim_digits digit_char_neq not_digit_signs)
qed

lemma to_number_two_digits:
  assumes "a < 10" and "b < 10"
  shows "to_number [digit_char a, digit_char b] = Some (of_nat (10 * a + b))"
proof -
  have "str_decimal [digit_char a, digit_char b] = Some (of_nat (10 * a + b))"
    using assms
    by (simp add: str_decimal_def digits_val_def is_digit_digit_char of_char_digit)
  with assms show ?thesis
    by (simp add: to_number_def trim_digits digit_char_neq not_digit_signs)
qed

lemma number_to_string_nat: "number_to_string (of_nat k) = show_nat k"
  by (simp add: number_to_string_def Let_def)

lemma show_nat_digit: "n < 10 \<Longrightarrow> show_nat n = [digit_char n]"
  by (simp add: show_nat.simps)

lemma show_nat_two_digits: "10 \<le> n \<Longrightarrow> n < 100 \<Longrightarrow> show_nat n = two_digits n"
  by (subst show_nat.simps) (simp add: show_nat_digit two_digits_def)

lemma normalize_wellformed:
  assumes "h < 100" and "m < 100"
  shows "normalize (two_digits h @ two_digits m) =
         (if h < 10 then digit_char h # two_digits m else two_digits h @ two_digits m)"
proof -
  have c: "replace_colon (two_digits h @ two_digits m) = two_digits h @ two_digits m"
    using assms by (simp add: two_digits_def digit_char_not_colon)
  have "h div 10 < 10" using assms by simp
  then have "digit_char (h div 10) = CHR ''0'' \<longleftrightarrow> h div 10 = 0"
    using digit_char_eq_iff [of "h div 10" 0] by (simp add: digit_char_0)
  moreover have "h div 10 = 0 \<longleftrightarrow> h < 10" by (simp add: div_eq_0_iff)
  ultimately have z: "digit_char (h div 10) = CHR ''0'' \<longleftrightarrow> h < 10" by simp
  show ?thesis
    unfolding normalize_def substring_def
    using c z by (simp add: two_digits_def)
qed

lemma two_digits_zero: "m < 100 \<Longrightarrow> two_digits m = ''00'' \<longleftrightarrow> m = 0"
proof
  assume m: "m < 100" and "two_digits m = ''00''"
  then have "digit_char (m div 10) = digit_char 0" "digit_char (m mod 10) = digit_char 0"
    by (simp_all add: two_digits_def digit_char_0)
  with m have "m div 10 = 0" "m mod 10 = 0"
    using digit_char_eq_iff [of "m div 10" 0] digit_char_eq_iff [of "m mod 10" 0] by simp_all
  then show "m = 0" using div_mult_mod_eq [of m 10] by simp
next
  assume "m = 0"
  then show "two_digits m = ''00''" by (simp add: two_digits_def digit_char_0)
qed

lemma two_digits_length: "length (two_digits m) = 2"
  by (simp add: two_digits_def)

lemma militaryToAMPM_split:
  assumes "time \<noteq> []" and "split_hhmm (normalize time) = (hh, Some mm)" and "mm \<noteq> []"
  shows "militaryToAMPM time =
         Inr (js_to_string
                (if (if js_gt hh (Num 12) then js_sub hh (Num 12) else hh) = Str ''0''
                 then Str ''12''
                 else (if js_gt hh (Num 12) then js_sub hh (Num 12) else hh)) @
              (if mm = ''00'' then [] else '':'' @ mm) @
              (if js_lt hh (Num 12) then ''am'' else ''pm''))"
  using assms by (simp add: militaryToAMPM_def Let_def)

lemma split_one_digit:
  "split_hhmm (digit_char h # two_digits m) = (Str [digit_char h], Some (two_digits m))"
  by (simp add: split_hhmm_def substring_def two_digits_def)

lemma split_two_digits:
  "split_hhmm (two_digits h @ two_digits m) = (Str (two_digits h), Some (two_digits m))"
  by (simp add: split_hhmm_def substring_def two_digits_def)

lemma hour_one_digit:
  assumes "h < 10"
  shows "js_lt (Str [digit_char h]) (Num 12)" and "\<not> js_gt (Str [digit_char h]) (Num 12)"
  using assms by (simp_all add: js_gt_def to_number_digit)

lemma hour_two_digits:
  assumes "h < 100"
  shows "js_lt (Str (two_digits h)) (Num 12) \<longleftrightarrow> h < 12"
    and "js_gt (Str (two_digits h)) (Num 12) \<longleftrightarrow> 12 < h"
    and "js_sub (Str (two_digits h)) (Num 12) = Num (of_nat h - 12)"
proof -
  have "h div 10 < 10" using assms by simp
  then have tn: "to_number (two_digits h) = Some (of_nat h)"
    using to_number_two_digits [of "h div 10" "h mod 10"] by (simp add: two_digits_def)
  have a: "(of_nat h :: rat) < 12 \<longleftrightarrow> h < 12"
    by (metis of_nat_less_iff of_nat_numeral)
  have b: "12 < (of_nat h :: rat) \<longleftrightarrow> 12 < h"
    by (metis of_nat_less_iff of_nat_numeral)
  show "js_lt (Str (two_digits h)) (Num 12) \<longleftrightarrow> h < 12"
    using a by (simp add: tn)
  show "js_gt (Str (two_digits h)) (Num 12) \<longleftrightarrow> 12 < h"
    using b by (simp add: tn js_gt_def)
  show "js_sub (Str (two_digits h)) (Num 12) = Num (of_nat h - 12)"
    by (simp add: tn js_sub_def)
qed

lemma wf_one_digit:
  assumes "h < 10" and "m < 60"
  shows "militaryToAMPM (two_digits h @ two_digits m) =
         Inr (show_nat (if h mod 12 = 0 then 12 else h mod 12) @
              (if m = 0 then [] else '':'' @ two_digits m) @
              (if h < 12 then ''am'' else ''pm''))"
proof -
  let ?time = "two_digits h @ two_digits m"
  have ne: "?time \<noteq> []" by (simp add: two_digits_def)
  have mne: "two_digits m \<noteq> []" by (simp add: two_digits_def)
  have mz: "two_digits m = ''00'' \<longleftrightarrow> m = 0" using assms two_digits_zero by simp
  have nm: "normalize ?time = digit_char h # two_digits m"
    using assms by (simp add: normalize_wellformed)
  have sp: "split_hhmm (normalize ?time) = (Str [digit_char h], Some (two_digits m))"
    by (simp only: nm split_one_digit)
  have z: "Str [digit_char h] = Str ''0'' \<longleftrightarrow> h = 0"
    using assms digit_char_eq_iff [of h 0] by (simp add: digit_char_0)
  have twelve: "show_nat 12 = ''12''" by code_simp
  have md: "h mod 12 = h" and lt: "h < 12" using assms by simp_all
  note hd = hour_one_digit [OF assms(1)]
  show ?thesis
    unfolding militaryToAMPM_split [OF ne sp mne] md
    using hd z twelve lt assms(1) by (simp add: mz show_nat_digit del: js_lt.simps)
qed

lemma wf_ten_to_twelve:
  assumes "10 \<le> h" and "h \<le> 12" and "m < 60"
  shows "militaryToAMPM (two_digits h @ two_digits m) =
         Inr (show_nat (if h mod 12 = 0 then 12 else h mod 12) @
              (if m = 0 then [] else '':'' @ two_digits m) @
              (if h < 12 then ''am'' else ''pm''))"
proof -
  let ?time = "two_digits h @ two_digits m"
  have ne: "?time \<noteq> []" by (simp add: two_digits_def)
  have mne: "two_digits m \<noteq> []" by (simp add: two_digits_def)
  have mz: "two_digits m = ''00'' \<longleftrightarrow> m = 0" using assms two_digits_zero by simp
  have nm: "normalize ?time = ?time"
    using assms by (simp add: normalize_wellformed)
  have sp: "split_hhmm (normalize ?time) = (Str (two_digits h), Some (two_digits m))"
    by (simp only: nm split_two_digits)
  have h100: "h < 100" using assms by simp
  have nz: "Str (two_digits h) \<noteq> Str ''0''" by (simp add: two_digits_def)
  have gt: "\<not> 12 < h" using assms by simp
  have sh: "show_nat (if h mod 12 = 0 then 12 else h mod 12) = two_digits h"
  proof (cases "h = 12")
    case True
    then show ?thesis by (simp add: show_nat_two_digits)
  next
    case False
    with assms have "h mod 12 = h" "h \<noteq> 0" by simp_all
    with assms show ?thesis by (simp add: show_nat_two_digits)
  qed
  show ?thesis
    unfolding militaryToAMPM_split [OF ne sp mne] hour_two_digits [OF h100] sh
    using gt nz by (simp add: mz)
qed

lemma wf_afternoon:
  assumes "12 < h" and "h < 24" and "m < 60"
  shows "militaryToAMPM (two_digits h @ two_digits m) =
         Inr (show_nat (if h mod 12 = 0 then 12 else h mod 12) @
              (if m = 0 then [] else '':'' @ two_digits m) @
              (if h < 12 then ''am'' else ''pm''))"
proof -
  let ?time = "two_digits h @ two_digits m"
  have ne: "?time \<noteq> []" by (simp add: two_digits_def)
  have mne: "two_digits m \<noteq> []" by (simp add: two_digits_def)
  have mz: "two_digits m = ''00'' \<longleftrightarrow> m = 0" using assms two_digits_zero by simp
  have nm: "normalize ?time = ?time"
    using assms by (simp add: normalize_wellformed)
  have sp: "split_hhmm (normalize ?time) = (Str (two_digits h), Some (two_digits m))"
    by (simp only: nm split_two_digits)
  have h100: "h < 100" using assms by simp
  have sub: "(of_nat h :: rat) - 12 = of_nat (h - 12)"
    using assms by (simp add: of_nat_diff)
  have "h mod 12 = (h - 12) mod 12" using assms by (simp add: le_mod_geq)
  also have "\<dots> = h - 12" using assms by simp
  finally have md: "h mod 12 = h - 12" .
  have sh: "show_nat (if h mod 12 = 0 then 12 else h mod 12) = show_nat (h - 12)"
    unfolding md using assms by simp
  have lt: "\<not> h < 12" using assms by simp
  have hh: "js_to_string (Num (of_nat (h - 12))) = show_nat (h - 12)"
    by (simp only: js_to_string.simps number_to_string_nat)
  show ?thesis
    unfolding militaryToAMPM_split [OF ne sp mne] hour_two_digits [OF h100] sub sh
    using assms(1) lt hh by (simp add: mz)
qed

text \<open>
  On every time \<open>HHMM\<close> of the 24-hour clock the result is the hour of the 12-hour
  clock (12 for the hours 0 and 12), then the minutes after a colon unless they are
  \<open>00\<close>, then \<open>am\<close> before noon and \<open>pm\<close> from noon on.
\<close>

lemma militaryToAMPM_wellformed:
  assumes "h < 24" and "m < 60"
  shows "militaryToAMPM (two_digits h @ two_digits m) =
         Inr (show_nat (if h mod 12 = 0 then 12 else h mod 12) @
              (if m = 0 then [] else '':'' @ two_digits m) @
              (if h < 12 then ''am'' else ''pm''))"
proof -
  consider "h < 10" | "10 \<le> h" "h \<le> 12" | "12 < h" by linarith
  then show ?thesis
  proof cases
    case 1
    from this assms(2) show ?thesis by (rule wf_one_digit)
  next
    case 2
    from this assms(2) show ?thesis by (rule wf_ten_to_twelve)
  next
    case 3
    from this assms show ?thesis by (rule wf_afternoon)
  qed
qed

subsection \<open>The claims on the time formatter\<close>

text \<open>
  C3. The claim: the formatter never throws on an input that normalizes to fewer than
  three digits, it returns a fallback string. The code at the input \<open>12\<close>: the
  normal form has two code units, neither branch of the split on the length assigns the
  hour and minute parts, and reading the length of the undefined minute part throws a
  \<open>TypeError\<close>.
\<close>

theorem militaryToAMPM_short_throws: "militaryToAMPM ''12'' = Inl TypeError"
  by code_simp

text \<open>
  C4. The formatter maps the empty string to the empty string, \<open>0900\<close> to \<open>9am\<close>,
  \<open>1430\<close> to \<open>2:30pm\<close>, \<open>0005\<close> to \<open>12:05am\<close> and \<open>1200\<close> to \<open>12pm\<close>.
\<close>

theorem militaryToAMPM_examples:
  "militaryToAMPM [] = Inr [] \<and>
   militaryToAMPM ''0900'' = Inr ''9am'' \<and>
   militaryToAMPM ''1430'' = Inr ''2:30pm'' \<and>
   militaryToAMPM ''0005'' = Inr ''12:05am'' \<and>
   militaryToAMPM ''1200'' = Inr ''12pm''"
  by code_simp

section \<open>Properties of the comparators and of the ranking\<close>

lemma sortNearbyMarkers_numeric:
  assumes "get_prop a ''distance'' = Num x" and "get_prop b ''distance'' = Num y"
  shows "sortNearbyMarkers a b = (if x < y then - 1 else if y < x then 1 else 0)"
  using assms by (simp add: sortNearbyMarkers_def js_gt_def)

lemma sortNearbyMarkers_le:
  assumes "get_prop a ''distance'' = Num x" and "get_prop b ''distance'' = Num y"
  shows "sortNearbyMarkers a b \<le> 0 \<longleftrightarrow> x \<le> y"
  using assms by (simp add: sortNearbyMarkers_numeric)

lemma distance_of_numeric: "get_prop a ''distance'' = Num x \<Longrightarrow> distance_of a = x"
  by (simp add: distance_of_def)

lemma mset_insert_by: "mset (insert_by cmp x ys) = add_mset x (mset ys)"
  by (induction ys) simp_all

lemma set_insert_by: "set (insert_by cmp x ys) = insert x (set ys)"
  by (induction ys) auto

lemma mset_rank: "mset (rank xs) = mset xs"
  by (induction xs) (simp_all add: rank_def mset_insert_by)

lemma set_rank: "set (rank xs) = set xs"
  by (induction xs) (simp_all add: rank_def set_insert_by)

lemma rank_Cons: "rank (x # xs) = insert_by sortNearbyMarkers x (rank xs)"
  by (simp add: rank_def)

lemma sorted_insert_by:
  assumes "\<exists>d. get_prop x ''distance'' = Num d"
    and "\<forall>y\<in>set ys. \<exists>d. get_prop y ''distance'' = Num d"
    and "sorted (map distance_of ys)"
  shows "sorted (map distance_of (insert_by sortNearbyMarkers x ys))"
  using assms
proof (induction ys)
  case Nil
  then show ?case by simp
next
  case (Cons y ys)
  from Cons.prems obtain dx dy where
    dx: "get_prop x ''distance'' = Num dx" and dy: "get_prop y ''distance'' = Num dy"
    by auto
  show ?case
  proof (cases "dx \<le> dy")
    case True
    with Cons.prems dx dy show ?thesis
      by (auto simp: sortNearbyMarkers_le distance_of_numeric)
  next
    case False
    have tl: "sorted (map distance_of (insert_by sortNearbyMarkers x ys))"
      using Cons by simp
    have "\<forall>z\<in>set (insert_by sortNearbyMarkers x ys). distance_of y \<le> distance_of z"
      using Cons.prems False dx dy by (auto simp: set_insert_by distance_of_numeric)
    with tl False dx dy show ?thesis
      by (simp add: sortNearbyMarkers_le)
  qed
qed

lemma sorted_rank:
  "\<forall>x\<in>set xs. \<exists>d. get_prop x ''distance'' = Num d \<Longrightarrow> sorted (map distance_of (rank xs))"
proof (induction xs)
  case Nil
  then show ?case by (simp add: rank_def)
next
  case (Cons x xs)
  then show ?case
    by (simp add: rank_Cons sorted_insert_by set_rank)
qed

lemma filter_insert_by:
  assumes "\<exists>d. get_prop x ''distance'' = Num d"
    and "\<forall>y\<in>set ys. \<exists>d. get_prop y ''distance'' = Num d"
  shows "filter (\<lambda>z. get_prop z ''distance'' = v) (insert_by sortNearbyMarkers x ys) =
         (if get_prop x ''distance'' = v then [x] else []) @
         filter (\<lambda>z. get_prop z ''distance'' = v) ys"
  using assms
proof (induction ys)
  case Nil
  then show ?case by simp
next
  case (Cons y ys)
  from Cons.prems obtain dx dy where
    dx: "get_prop x ''distance'' = Num dx" and dy: "get_prop y ''distance'' = Num dy"
    by auto
  show ?case
  proof (cases "dx \<le> dy")
    case True
    with dx dy show ?thesis by (simp add: sortNearbyMarkers_le)
  next
    case False
    with Cons dx dy show ?thesis by (auto simp: sortNearbyMarkers_le)
  qed
qed

lemma filter_rank:
  "\<forall>x\<in>set xs. \<exists>d. get_prop x ''distance'' = Num d \<Longrightarrow>
   filter (\<lambda>z. get_prop z ''distance'' = v) (rank xs) =
   filter (\<lambda>z. get_prop z ''distance'' = v) xs"
proof (induction xs)
  case Nil
  then show ?case by (simp add: rank_def)
next
  case (Cons x xs)
  then show ?case
    by (simp add: rank_Cons filter_insert_by set_rank)
qed

text \<open>
  C5. For every list of entities whose distance field holds a number, ranking returns
  the empty list on the empty list, and a list with the same elements (as a multiset),
  ascending by distance, in which the elements of any one distance keep the order they
  had in the input.
\<close>

theorem rank_sorted_stable_permutation:
  assumes "\<forall>x\<in>set xs. \<exists>d. get_prop x ''distance'' = Num d"
  shows "rank [] = [] \<and> mset (rank xs) = mset xs \<and> sorted (map distance_of (rank xs)) \<and>
         (\<forall>v. filter (\<lambda>z. get_prop z ''distance'' = v) (rank xs) =
              filter (\<lambda>z. get_prop z ''distance'' = v) xs)"
  using assms by (simp add: mset_rank sorted_rank filter_rank) (simp add: rank_def)

theorem rank_sorted_stable_permutation_witness:
  "rank [[(''name'', Str ''a''), (''distance'', Num 3)],
         [(''distance'', Num 1), (''name'', Str ''b'')],
         [(''name'', Str ''c''), (''distance'', Num 3)]] =
        [[(''distance'', Num 1), (''name'', Str ''b'')],
         [(''name'', Str ''a''), (''distance'', Num 3)],
         [(''name'', Str ''c''), (''distance'', Num 3)]] \<and>
   sorted (map distance_of
     (rank [[(''name'', Str ''a''), (''distance'', Num 3)],
            [(''distance'', Num 1), (''name'', Str ''b'')],
            [(''name'', Str ''c''), (''distance'', Num 3)]])) \<and>
   filter (\<lambda>z. get_prop z ''distance'' = Num 3)
     (rank [[(''name'', Str ''a''), (''distance'', Num 3)],
            [(''distance'', Num 1), (''name'', Str ''b'')],
            [(''name'', Str ''c''), (''distance'', Num 3)]]) =
     [[(''name'', Str ''a''), (''distance'', Num 3)],
      [(''name'', Str ''c''), (''distance'', Num 3)]]"
proof -
  let ?xs = "[[(''name'', Str ''a''), (''distance'', Num 3)],
              [(''distance'', Num 1), (''name'', Str ''b'')],
              [(''name'', Str ''c''), (''distance'', Num 3)]]"
  have h: "\<forall>x\<in>set ?xs. \<exists>d. get_prop x ''distance'' = Num d"
    by (simp add: get_prop_def)
  have r: "rank ?xs = [[(''distance'', Num 1), (''name'', Str ''b'')],
                       [(''name'', Str ''a''), (''distance'', Num 3)],
                       [(''name'', Str ''c''), (''distance'', Num 3)]]"
    by code_simp
  from rank_sorted_stable_permutation [OF h] r show ?thesis
    by (simp add: get_prop_def)
qed

text \<open>
  C10. On every pair of objects the marker comparator returns what the generic
  comparator for the property \<open>distance\<close> returns, so any sorting procedure \<open>srt\<close>
  that takes a comparator gives the same list with either.
\<close>

theorem sortNearbyMarkers_is_dynamicSort:
  "sortNearbyMarkers a b = dynamicSort ''distance'' a b \<and>
   srt sortNearbyMarkers xs = srt (dynamicSort ''distance'') xs"
proof -
  have "sortNearbyMarkers = dynamicSort ''distance''"
    by (intro ext) (simp add: sortNearbyMarkers_def dynamicSort_def)
  then show ?thesis by simp
qed

section \<open>Properties of the polling\<close>




lemma run_Nil: "run [] s = s"
  by (simp add: run_def)

lemma run_snoc: "run (es @ [e]) s = step e (run es s)"
  by (simp add: run_def)


lemma tick_single:
  "tick \<lparr>stopID = sid, clock = c, intervals = [d], requests = rs\<rparr> =
   \<lparr>stopID = sid, clock = max c d, intervals = [d + stopUpdateInterval],
    requests = rs @ [(max c d, sid)]\<rparr>"
  by (simp add: tick_def tryUpdateStop_def Let_def)

lemma mounted_ticks:
  "run (replicate n Tick) (componentDidMount (created sid t)) =
   \<lparr>stopID = sid, clock = (if n = 0 then t else t + stopUpdateInterval * n),
    intervals = [t + stopUpdateInterval * Suc n],
    requests = map (\<lambda>k. (t + stopUpdateInterval * k, sid)) [1..<Suc n]\<rparr>"
proof (induction n)
  case 0
  show ?case
    by (simp add: run_Nil componentDidMount_def startShuttleWatch_def created_def)
next
  case (Suc n)
  have le: "(if n = 0 then t else t + stopUpdateInterval * n) \<le> t + stopUpdateInterval * Suc n"
    by simp
  have "run (replicate (Suc n) Tick) (componentDidMount (created sid t)) =
        tick (run (replicate n Tick) (componentDidMount (created sid t)))"
    by (simp add: run_snoc flip: replicate_append_same)
  also have "\<dots> = \<lparr>stopID = sid, clock = t + stopUpdateInterval * Suc n,
      intervals = [t + stopUpdateInterval * Suc n + stopUpdateInterval],
      requests = map (\<lambda>k. (t + stopUpdateInterval * k, sid)) [1..<Suc n] @
                 [(t + stopUpdateInterval * Suc n, sid)]\<rparr>"
    unfolding Suc.IH tick_single using le by (simp only: max_absorb2)
  also have "\<dots> = \<lparr>stopID = sid,
      clock = (if Suc n = 0 then t else t + stopUpdateInterval * Suc n),
      intervals = [t + stopUpdateInterval * Suc (Suc n)],
      requests = map (\<lambda>k. (t + stopUpdateInterval * k, sid)) [1..<Suc (Suc n)]\<rparr>"
    by simp
  finally show ?case .
qed



text \<open>
  C2. The claim: starting the watch issues one poll at once and arms the repeating
  timer. The code: after mounting no request has been issued; the first one is issued
  when the timer first fires, 6000 ms later.
\<close>

theorem no_poll_at_start_counterexample:
  "requests (componentDidMount (created (7::nat) 0)) = [] \<and>
   requests (tick (componentDidMount (created (7::nat) 0))) = [(6000, 7)]"
  by (simp add: tick_def tryUpdateStop_def componentDidMount_def startShuttleWatch_def
      created_def stopUpdateInterval_def)

text \<open>
  C2, as the code has it. Mounting arms one repeating timer, first due 6000 ms later,
  and issues no request; the ticks that follow issue one request each, the \<open>k\<close>-th of
  them \<open>6000 * k\<close> ms after the start, for the stop of the component.
\<close>

theorem start_arms_timer_only:
  "requests (componentDidMount (created sid t)) = [] \<and>
   intervals (componentDidMount (created sid t)) = [t + 6000] \<and>
   requests (run (replicate n Tick) (componentDidMount (created sid t))) =
     map (\<lambda>k. (t + 6000 * k, sid)) [1..<Suc n]"
proof -
  have "requests (run (replicate n Tick) (componentDidMount (created sid t))) =
        map (\<lambda>k. (t + stopUpdateInterval * k, sid)) [1..<Suc n]"
    by (simp only: mounted_ticks shuttle_stop.simps)
  then show ?thesis
    by (simp add: componentDidMount_def startShuttleWatch_def created_def stopUpdateInterval_def)
qed

section \<open>Properties of the reload indicator\<close>

lemma advance_idle: "driver a = None \<Longrightarrow> advance dt a = a"
  by (simp add: advance_def)

lemma fold_advance_idle: "driver a = None \<Longrightarrow> fold advance dts a = a"
  by (induction dts) (simp_all add: advance_idle)

text \<open>
  C7. The claim: every poll start first sets the indicator to 0, so each ramp starts
  from 0. The code: a ramp started from 0 has reached 50 after 30000 ms; starting the
  animation again then leaves the value at 50, and the new ramp goes on from there (75
  after 30000 ms more).
\<close>

theorem start_continues_counterexample:
  "current (startReloadAnimation
      (advance 30000 (startReloadAnimation \<lparr>current = 0, driver = None\<rparr>))) = 50 \<and>
   current (advance 30000 (startReloadAnimation
      (advance 30000 (startReloadAnimation \<lparr>current = 0, driver = None\<rparr>)))) = 75"
  by (simp add: startReloadAnimation_def timing_start_def advance_def linear_def)

text \<open>
  C7, as the code has it. Starting the animation does not reset the indicator: the value
  stays what it is, and a linear ramp runs from that value to 100 over 60000 ms (with
  \<open>startReloadAnimation2\<close>, to the given target over the given duration, at once when
  the duration is 0). The ramp starts from 0 when the value is 0 at that moment, as it is
  right after \<open>stopReloadAnimation\<close>.
\<close>

theorem startReloadAnimation_from_current:
  "current (startReloadAnimation anim) = current anim \<and>
   driver (startReloadAnimation anim) =
     Some \<lparr>fromValue = current anim, toValue = 100, duration = 60000, easing = linear,
           elapsed = 0\<rparr> \<and>
   current (advance dt (startReloadAnimation anim)) =
     (if dt < 60000 then current anim + (of_nat dt / 60000) * (100 - current anim) else 100) \<and>
   current (startReloadAnimation2 anim toVal dur) = (if dur = 0 then toVal else current anim) \<and>
   current (advance dt (startReloadAnimation2 anim toVal dur)) =
     (if dt < dur then current anim + (of_nat dt / of_nat dur) * (toVal - current anim)
      else toVal) \<and>
   current (startReloadAnimation (stopReloadAnimation e anim)) = 0"
  by (simp add: startReloadAnimation_def startReloadAnimation2_def stopReloadAnimation_def
      timing_start_def advance_def linear_def)

text \<open>
  C8. Stopping sets the indicator to 0 at once, whatever value it had and whatever ramp
  was running; no animation drives it afterwards, and it stays at 0 however much time
  passes.
\<close>

theorem stopReloadAnimation_snaps_to_zero:
  "current (stopReloadAnimation e anim) = 0 \<and>
   driver (stopReloadAnimation e anim) = None \<and>
   fold advance dts (stopReloadAnimation e anim) = \<lparr>current = 0, driver = None\<rparr>"
proof -
  have "stopReloadAnimation e anim = \<lparr>current = 0, driver = None\<rparr>"
    by (simp add: stopReloadAnimation_def timing_start_def)
  then show ?thesis by (simp add: fold_advance_idle)
qed

section \<open>Properties of the directions handoff\<close>

text \<open>
  C9. For every destination and method the URL is the Apple Maps template on iOS and the
  Google Maps template on any other platform, filled with the latitude and the
  longitude, and it ends with the walking flag exactly when the method is the string
  \<open>walk\<close>, with the driving flag otherwise. The two platforms never give the same URL.
\<close>

theorem getDirectionsURL_templates:
  "getDirectionsURL os method stopLat stopLon =
     (if os = ''ios'' then ''http://maps.apple.com/?saddr=Current%20Location&daddr=''
      else ''https://maps.google.com/maps?saddr=Current+Location&daddr='') @
     js_to_string stopLat @ '','' @ js_to_string stopLon @
     (if method = Str ''walk'' then ''&dirflg=w'' else ''&dirflg=d'') \<and>
   getDirectionsURL ''ios'' method stopLat stopLon \<noteq>
     getDirectionsURL ''android'' method stopLat stopLon"
  by (simp add: getDirectionsURL_def platformIOS_def)

section \<open>Properties of the fetcher\<close>

text \<open>
  C6. The claim: a body that carries the error-message field makes the fetch fail. The
  code: a body whose error-message field is the empty string, next to a result, makes
  the fetch succeed with the result.
\<close>

theorem FetchDining_falsy_error_counterexample:
  "json_prop (JObject [(''errorMessage'', JString []),
                       (''GetDiningInfoResult'', JArray [JString ''Pines''])])
     ''errorMessage'' = Inr (Some (JString [])) \<and>
   FetchDining (Body (Some (JObject [(''errorMessage'', JString []),
                                     (''GetDiningInfoResult'', JArray [JString ''Pines''])]))) =
     Inr (Some (JArray [JString ''Pines'']))"
  by (simp add: FetchDining_def)

text \<open>
  C6, as the code has it. The test is on the truth value of the field: when the
  error-message field of the body is truthy, the fetch fails with that value thrown;
  and the fetch succeeds exactly when the transport gave a body that parses, is not
  \<open>null\<close>, and whose error-message field is absent or falsy, and then it returns the
  result field of the body as it is.
\<close>

theorem FetchDining_truthy_error:
  "(json_prop data ''errorMessage'' = Inr m \<and> truthy m \<longrightarrow>
      FetchDining (Body (Some data)) = Inl (Thrown m)) \<and>
   (FetchDining t = Inr r \<longleftrightarrow>
      (\<exists>data m. t = Body (Some data) \<and> json_prop data ''errorMessage'' = Inr m \<and>
         \<not> truthy m \<and> json_prop data ''GetDiningInfoResult'' = Inr r))"
  by (auto simp: FetchDining_def split: transport.splits option.splits sum.splits)

theorem FetchDining_truthy_error_witness:
  "FetchDining (Body (Some (JObject [(''errorMessage'', JString ''down'')]))) =
     Inl (Thrown (Some (JString ''down''))) \<and>
   (\<exists>data m. Body (Some (JObject [(''GetDiningInfoResult'', JArray [JString ''Pines''])])) =
        Body (Some data) \<and>
      json_prop data ''errorMessage'' = Inr m \<and> \<not> truthy m \<and>
      json_prop data ''GetDiningInfoResult'' = Inr (Some (JArray [JString ''Pines''])))"
proof -
  have a: "json_prop (JObject [(''errorMessage'', JString ''down'')]) ''errorMessage'' =
             Inr (Some (JString ''down'')) \<and> truthy (Some (JString ''down''))"
    by simp
  have b: "FetchDining (Body (Some (JObject [(''GetDiningInfoResult'', JArray [JString ''Pines''])]))) =
             Inr (Some (JArray [JString ''Pines'']))"
    by (simp add: FetchDining_def)
  from FetchDining_truthy_error
    [of "JObject [(''errorMessage'', JString ''down'')]" "Some (JString ''down'')"
        "Body (Some (JObject [(''GetDiningInfoResult'', JArray [JString ''Pines''])]))"
        "Some (JArray [JString ''Pines''])"] a b
  show ?thesis by blast
qed

end
